theory Spec2Isabelle
  imports Complex_Main
begin

section \<open>JavaScript values used by the server\<close>

text \<open>
  The fields of a request and of a job are either \<open>undefined\<close> (\<open>None\<close>) or a string.
  \<open>falsy v\<close> is what \<^verbatim>\<open>!v\<close> tests on such a value: \<open>undefined\<close> and the empty string
  are falsy, every other string is truthy. \<open>js_str\<close> is the text a template literal
  \<^verbatim>\<open>${v}\<close> produces.
\<close>

definition falsy :: "string option \<Rightarrow> bool" where
  "falsy v = (case v of None \<Rightarrow> True | Some t \<Rightarrow> t = [])"

definition js_str :: "string option \<Rightarrow> string" where
  "js_str v = (case v of None \<Rightarrow> ''undefined'' | Some t \<Rightarrow> t)"

text \<open>Decimal rendering of a non-negative integer, as \<^verbatim>\<open>${requestId}\<close> prints it.\<close>

definition digit_char :: "nat \<Rightarrow> char" where
  "digit_char d = ''0123456789'' ! (d mod 10)"

fun show_nat :: "nat \<Rightarrow> string" where
  "show_nat n = (if n < 10 then [digit_char n] else show_nat (n div 10) @ [digit_char (n mod 10)])"

declare show_nat.simps [simp del]

text \<open>
  Errors that reach a \<^verbatim>\<open>catch\<close>: a \<open>TypeError\<close> raised by the JavaScript runtime, or the
  reason a promise of the queue backing store was rejected with. A promise of the
  backing store settles one way or the other (\<open>outcome\<close>); which way is the environment's
  choice, so every operation that awaits one takes the outcome as an argument.
\<close>

datatype js_error = TypeError string | Rejection string

datatype outcome = Resolved | Rejected js_error

datatype console_entry = Log string | Error string "js_error option"

section \<open>Jobs, trace log entries, requests and responses\<close>

text \<open>
  A regional job is \<^verbatim>\<open>{ method, url, requestId }\<close> (the field \<^verbatim>\<open>method\<close> is
  \<open>method_name\<close> here); a main-queue job carries \<^verbatim>\<open>location\<close> as well.
  \<^verbatim>\<open>requestId\<close> is a reading of \<^verbatim>\<open>Date.now()\<close>, a number of milliseconds.
\<close>

record region_job =
  method_name :: "string option"
  url :: "string option"
  requestId :: nat

record main_job = region_job +
  location :: "string option"

record log_entry =
  queue :: string
  request :: main_job

record http_request =
  req_method :: "string option"
  req_url :: "string option"
  headers_location :: "string option"

record http_response =
  res_status :: nat
  res_json :: "(string \<times> string) list"

section \<open>The queue primitive\<close>

text \<open>
  Modelled from the spec: the \<^verbatim>\<open>Queue\<close> class is the third-party package the server
  requires and is not part of the sources. Following the spec's Job Queue component, a
  queue is the FIFO list of its pending and in-flight jobs, oldest first; \<^verbatim>\<open>add\<close> appends
  at the tail once the backing store has recorded the job (a rejected \<^verbatim>\<open>add\<close> leaves the
  queue as it was); \<^verbatim>\<open>size\<close> counts the jobs; the handler registered with
  \<^verbatim>\<open>process\<close> is driven against the oldest job, one job at a time, and the job leaves
  the queue when the handler calls \<^verbatim>\<open>done\<close>.
\<close>

definition queue_add :: "'a list \<Rightarrow> 'a \<Rightarrow> outcome \<Rightarrow> 'a list" where
  "queue_add q payload result = (case result of Resolved \<Rightarrow> q @ [payload] | Rejected e \<Rightarrow> q)"

definition queue_size :: "'a list \<Rightarrow> nat" where
  "queue_size q = length q"

definition queue_done :: "'a list \<Rightarrow> 'a list" where
  "queue_done q = tl q"

datatype queue_name = MainQueue | UsaQueue | EuropeQueue | IndiaQueue

fun name_of :: "queue_name \<Rightarrow> string" where
  "name_of MainQueue = ''mainQueue''"
| "name_of UsaQueue = ''usaQueue''"
| "name_of EuropeQueue = ''europeQueue''"
| "name_of IndiaQueue = ''indiaQueue''"

section \<open>The mock backend APIs\<close>

text \<open>
  A response object is modelled by the names of the methods it has; calling a method it
  lacks raises a \<open>TypeError\<close>. \<^verbatim>\<open>handleRequest\<close> only arms a timer: the callback
  \<^verbatim>\<open>res.status(200).json({ message })\<close> runs when the timer fires, after \<open>delay\<close>
  milliseconds. \<open>rnd\<close> is the value \<^verbatim>\<open>Math.random()\<close> returned; the request object
  \<^verbatim>\<open>{ method, url }\<close> is passed and never read.
\<close>

type_synonym res_object = "string list"

type_synonym req_object = "string option \<times> string option"

record timer =
  delay :: int
  target :: res_object
  message :: string

datatype api = ApiV1 | ApiV2

definition mockRESTAPIs :: "api list" where
  "mockRESTAPIs = [ApiV1, ApiV2]"

fun endpoint :: "api \<Rightarrow> string" where
  "endpoint ApiV1 = ''/api/v1/resource''"
| "endpoint ApiV2 = ''/api/v2/resource''"

fun handleRequest :: "api \<Rightarrow> real \<Rightarrow> req_object \<Rightarrow> res_object \<Rightarrow> timer" where
  "handleRequest ApiV1 rnd req res =
     \<lparr>delay = \<lfloor>rnd * 2000\<rfloor> + 500, target = res, message = ''REST API v1 response''\<rparr>"
| "handleRequest ApiV2 rnd req res =
     \<lparr>delay = \<lfloor>rnd * 1000\<rfloor> + 200, target = res, message = ''REST API v2 response''\<rparr>"

text \<open>
  The timer's callback. \<^verbatim>\<open>res.status\<close> is looked up first; when the object has no such
  method the call raises before \<^verbatim>\<open>json\<close> is reached. A \<^verbatim>\<open>status\<close> method is taken
  to return the object itself, as the framework's does.
\<close>

definition callback :: "timer \<Rightarrow> js_error + http_response" where
  "callback t =
     (if ''status'' \<notin> set (target t) then Inl (TypeError ''res.status is not a function'')
      else if ''json'' \<notin> set (target t) then Inl (TypeError ''res.status(...).json is not a function'')
      else Inr \<lparr>res_status = 200, res_json = [(''message'', message t)]\<rparr>)"

section \<open>The server\<close>

text \<open>
  The state of the process: the four queues, the trace log \<^verbatim>\<open>queueLogs\<close>, what has been
  written to the console, the timers that are armed, and for every call of
  \<^verbatim>\<open>gracefulShutdown\<close> the queues whose \<^verbatim>\<open>drain()\<close> promise is still pending.
  \<open>backend_calls\<close> is a history variable: the jobs for which a regional worker has
  called \<^verbatim>\<open>handleRequest\<close>, with the queue they came from and the variant chosen, in the
  order of the calls. \<open>unhandled\<close> collects the rejections of promises nobody awaits.
  \<open>process_status\<close> is \<open>Running\<close> until \<^verbatim>\<open>process.exit\<close> is called or an exception
  escapes a callback of the event loop, which ends the process.
\<close>

datatype proc_status = Running | Exited nat | Crashed js_error

record server =
  mainQueue :: "main_job list"
  usaQueue :: "region_job list"
  europeQueue :: "region_job list"
  indiaQueue :: "region_job list"
  queueLogs :: "log_entry list"
  console :: "console_entry list"
  timers :: "timer list"
  shutdowns :: "queue_name list list"
  backend_calls :: "(queue_name \<times> region_job \<times> api) list"
  unhandled :: "js_error list"
  process_status :: proc_status

definition init :: server where
  "init = \<lparr>mainQueue = [], usaQueue = [], europeQueue = [], indiaQueue = [], queueLogs = [],
     console = [], timers = [], shutdowns = [], backend_calls = [], unhandled = [],
     process_status = Running\<rparr>"

subsection \<open>Request validation and intake\<close>

text \<open>\<open>Some r\<close>: the middleware answered with \<open>r\<close>; \<open>None\<close>: it called \<^verbatim>\<open>next()\<close>.\<close>

definition validateRequest :: "http_request \<Rightarrow> http_response option" where
  "validateRequest req =
     (if falsy (req_method req) \<or> falsy (req_url req) \<or> falsy (headers_location req)
      then Some \<lparr>res_status = 400, res_json = [(''error'', ''Invalid request'')]\<rparr>
      else None)"

text \<open>
  \<open>now\<close> is the reading of \<^verbatim>\<open>Date.now()\<close>, \<open>added\<close> the outcome of the promise of
  \<^verbatim>\<open>mainQueue.add\<close>, which the handler does not await: the trace entry is pushed and the
  response is sent whatever the outcome.
  A rejection is only recorded in \<open>unhandled\<close>: what the runtime then does with it
  (recent versions end the process) is left out of the model.
\<close>

definition manageQueues :: "http_request \<Rightarrow> nat \<Rightarrow> outcome \<Rightarrow> server \<Rightarrow> http_response \<times> server" where
  "manageQueues req now added s =
     (let job = \<lparr>method_name = req_method req, url = req_url req, requestId = now,
                 location = headers_location req\<rparr>;
          lines = [Log (''Incoming '' @ js_str (req_method req) @ '' request ('' @ show_nat now
                        @ ''): '' @ js_str (req_url req)),
                   Log (''Location: '' @ js_str (headers_location req))]
      in (\<lparr>res_status = 202, res_json = [(''message'', ''Request queued for processing'')]\<rparr>,
          s\<lparr>console := console s @ lines,
            mainQueue := queue_add (mainQueue s) job added,
            unhandled := unhandled s @ (case added of Resolved \<Rightarrow> [] | Rejected e \<Rightarrow> [e]),
            queueLogs := queueLogs s @ [\<lparr>queue = ''mainQueue'', request = job\<rparr>]\<rparr>))"

text \<open>\<^verbatim>\<open>app.use(validateRequest, manageQueues)\<close>: the chain every request goes through.\<close>

definition app :: "http_request \<Rightarrow> nat \<Rightarrow> outcome \<Rightarrow> server \<Rightarrow> http_response \<times> server" where
  "app req now added s =
     (case validateRequest req of
        Some r \<Rightarrow> (r, s)
      | None \<Rightarrow> manageQueues req now added s)"

subsection \<open>The dispatcher: the handler of the main queue\<close>

text \<open>
  The handler runs on the oldest job of the main queue; with no job there is nothing to
  run. \<open>added\<close> is the outcome of the one regional \<^verbatim>\<open>add\<close> the handler awaits: the
  trace entry is pushed after the \<^verbatim>\<open>await\<close>, so a rejection skips it and lands in the
  \<^verbatim>\<open>catch\<close>. \<^verbatim>\<open>done()\<close> is called in the \<^verbatim>\<open>finally\<close>. The handler is one step: what
  the event loop runs while the \<^verbatim>\<open>add\<close> is pending is another event's effect.
\<close>

definition mainQueue_process :: "outcome \<Rightarrow> server \<Rightarrow> server" where
  "mainQueue_process added s =
     (case mainQueue s of
        [] \<Rightarrow> s
      | job # rest \<Rightarrow>
         (let payload = \<lparr>method_name = method_name job, url = url job, requestId = requestId job\<rparr>;
              req = \<lparr>method_name = method_name job, url = url job, requestId = requestId job,
                     location = location job\<rparr>;
              caught = (\<lambda>e. s\<lparr>console := console s @
                         [Error (''Error processing job '' @ show_nat (requestId job) @ '':'') (Some e)]\<rparr>);
              s1 =
                (if location job = Some ''USA'' then
                   (case added of
                      Resolved \<Rightarrow> s\<lparr>usaQueue := queue_add (usaQueue s) payload Resolved,
                                    queueLogs := queueLogs s @ [\<lparr>queue = ''usaQueue'', request = req\<rparr>]\<rparr>
                    | Rejected e \<Rightarrow> caught e)
                 else if location job = Some ''Europe'' then
                   (case added of
                      Resolved \<Rightarrow> s\<lparr>europeQueue := queue_add (europeQueue s) payload Resolved,
                                    queueLogs := queueLogs s @ [\<lparr>queue = ''europeQueue'', request = req\<rparr>]\<rparr>
                    | Rejected e \<Rightarrow> caught e)
                 else if location job = Some ''India'' then
                   (case added of
                      Resolved \<Rightarrow> s\<lparr>indiaQueue := queue_add (indiaQueue s) payload Resolved,
                                    queueLogs := queueLogs s @ [\<lparr>queue = ''indiaQueue'', request = req\<rparr>]\<rparr>
                    | Rejected e \<Rightarrow> caught e)
                 else s\<lparr>console := console s @
                         [Error (''Invalid location: '' @ js_str (location job)) None]\<rparr>)
          in s1\<lparr>mainQueue := queue_done (mainQueue s1)\<rparr>))"

subsection \<open>The regional workers\<close>

text \<open>
  The three handlers have the same body. \<open>rnd1\<close> is the value of \<^verbatim>\<open>Math.random()\<close>
  that picks the variant, \<open>rnd2\<close> the one \<^verbatim>\<open>handleRequest\<close> draws for its delay.
  An index outside the table reads \<open>undefined\<close>, and the call on it raises a
  \<open>TypeError\<close> that the handler's \<^verbatim>\<open>catch\<close> logs. The response object the handler
  passes is \<^verbatim>\<open>{ json: () => {} }\<close>: it has a \<^verbatim>\<open>json\<close> method and nothing else.
\<close>

definition pick_api :: "real \<Rightarrow> js_error + api" where
  "pick_api rnd =
     (let i = \<lfloor>rnd * real (length mockRESTAPIs)\<rfloor>
      in if 0 \<le> i \<and> i < int (length mockRESTAPIs) then Inr (mockRESTAPIs ! nat i)
         else Inl (TypeError ''Cannot read properties of undefined (reading handleRequest)''))"

definition worker :: "queue_name \<Rightarrow> region_job \<Rightarrow> real \<Rightarrow> real \<Rightarrow> server \<Rightarrow> server" where
  "worker q job rnd1 rnd2 s =
     (case pick_api rnd1 of
        Inr randomAPI \<Rightarrow>
          s\<lparr>timers := timers s @ [handleRequest randomAPI rnd2 (method_name job, url job) [''json'']],
            backend_calls := backend_calls s @ [(q, job, randomAPI)]\<rparr>
      | Inl e \<Rightarrow>
          s\<lparr>console := console s @
              [Error (''Error processing job '' @ show_nat (requestId job) @ '':'') (Some e)]\<rparr>)"

definition usaQueue_process :: "real \<Rightarrow> real \<Rightarrow> server \<Rightarrow> server" where
  "usaQueue_process rnd1 rnd2 s =
     (case usaQueue s of
        [] \<Rightarrow> s
      | job # rest \<Rightarrow> (worker UsaQueue job rnd1 rnd2 s)\<lparr>usaQueue := queue_done (usaQueue s)\<rparr>)"

definition europeQueue_process :: "real \<Rightarrow> real \<Rightarrow> server \<Rightarrow> server" where
  "europeQueue_process rnd1 rnd2 s =
     (case europeQueue s of
        [] \<Rightarrow> s
      | job # rest \<Rightarrow> (worker EuropeQueue job rnd1 rnd2 s)\<lparr>europeQueue := queue_done (europeQueue s)\<rparr>)"

definition indiaQueue_process :: "real \<Rightarrow> real \<Rightarrow> server \<Rightarrow> server" where
  "indiaQueue_process rnd1 rnd2 s =
     (case indiaQueue s of
        [] \<Rightarrow> s
      | job # rest \<Rightarrow> (worker IndiaQueue job rnd1 rnd2 s)\<lparr>indiaQueue := queue_done (indiaQueue s)\<rparr>)"

text \<open>The three regions, to speak about "each regional queue" in one statement.\<close>

datatype region = USA | Europe | India

fun tag :: "region \<Rightarrow> string" where
  "tag USA = ''USA''"
| "tag Europe = ''Europe''"
| "tag India = ''India''"

fun queue_of :: "region \<Rightarrow> queue_name" where
  "queue_of USA = UsaQueue"
| "queue_of Europe = EuropeQueue"
| "queue_of India = IndiaQueue"

fun regional :: "region \<Rightarrow> server \<Rightarrow> region_job list" where
  "regional USA s = usaQueue s"
| "regional Europe s = europeQueue s"
| "regional India s = indiaQueue s"

fun region_process :: "region \<Rightarrow> real \<Rightarrow> real \<Rightarrow> server \<Rightarrow> server" where
  "region_process USA = usaQueue_process"
| "region_process Europe = europeQueue_process"
| "region_process India = indiaQueue_process"

subsection \<open>Timers\<close>

text \<open>
  Timer \<open>i\<close> fires: it is disarmed and its callback runs. An exception the callback
  raises has no handler above it, and the process ends with it.
\<close>

definition fire :: "nat \<Rightarrow> server \<Rightarrow> server" where
  "fire i s =
     (if i < length (timers s) then
        (let s1 = s\<lparr>timers := take i (timers s) @ drop (Suc i) (timers s)\<rparr>
         in case callback (timers s ! i) of
              Inl e \<Rightarrow> s1\<lparr>process_status := Crashed e\<rparr>
            | Inr r \<Rightarrow> s1)
      else s)"

subsection \<open>The periodic analysis\<close>

definition analysis_period_ms :: nat where
  "analysis_period_ms = 10000"

definition log_line :: "log_entry \<Rightarrow> string" where
  "log_line l =
     queue l @ '' queue: '' @ js_str (method_name (request l)) @ '' '' @ js_str (url (request l))
       @ '' ('' @ js_str (location (request l)) @ '') ['' @ show_nat (requestId (request l)) @ '']''"

text \<open>
  The callback of \<^verbatim>\<open>setInterval\<close>. The Europe line is guarded:
  \<^verbatim>\<open>europeQueueSize && console.log(...)\<close> prints only when the size is not zero.
\<close>

definition analysis :: "server \<Rightarrow> server" where
  "analysis s =
     s\<lparr>console := console s @
        [Log ''Queue performance analysis:'',
         Log (''Main queue size: '' @ show_nat (queue_size (mainQueue s))),
         Log (''USA queue size: '' @ show_nat (queue_size (usaQueue s)))]
        @ (if queue_size (europeQueue s) = 0 then []
           else [Log (''Europe queue size: '' @ show_nat (queue_size (europeQueue s)))])
        @ [Log (''India queue size: '' @ show_nat (queue_size (indiaQueue s))),
           Log ''Queue logs:'']
        @ map (\<lambda>l. Log (log_line l)) (queueLogs s)\<rparr>"

subsection \<open>Shutdown\<close>

text \<open>
  \<^verbatim>\<open>gracefulShutdown\<close> calls \<^verbatim>\<open>drain()\<close> on the four queues and returns; the entry it
  adds to \<open>shutdowns\<close> lists the four promises as pending. \<open>waitForQueueDrain g q\<close> is
  what runs when the promise of queue \<open>q\<close> in the \<open>g\<close>-th call settles: resolved, the
  rest of \<^verbatim>\<open>waitForQueueDrain\<close> logs the queue's name, and when it was the last of the
  four \<^verbatim>\<open>Promise.all\<close> fulfils and the \<^verbatim>\<open>then\<close> branch exits with code 0; rejected,
  \<^verbatim>\<open>Promise.all\<close> rejects at once and the \<^verbatim>\<open>catch\<close> branch logs the error and exits
  with code 1.
\<close>

definition gracefulShutdown :: "server \<Rightarrow> server" where
  "gracefulShutdown s =
     s\<lparr>console := console s @ [Log ''Gracefully shutting down the server...''],
       shutdowns := shutdowns s @ [[MainQueue, UsaQueue, EuropeQueue, IndiaQueue]]\<rparr>"

definition waitForQueueDrain :: "nat \<Rightarrow> queue_name \<Rightarrow> outcome \<Rightarrow> server \<Rightarrow> server" where
  "waitForQueueDrain g q drained s =
     (if g < length (shutdowns s) \<and> q \<in> set (shutdowns s ! g) then
        (let pending = removeAll q (shutdowns s ! g);
             s1 = s\<lparr>shutdowns := (shutdowns s)[g := pending]\<rparr>
         in case drained of
              Resolved \<Rightarrow>
                (let s2 = s1\<lparr>console := console s1 @ [Log (name_of q @ '' queue drained'')]\<rparr>
                 in if pending = []
                    then s2\<lparr>console := console s2 @ [Log ''All queues drained. Shutting down...''],
                            process_status := Exited 0\<rparr>
                    else s2)
            | Rejected e \<Rightarrow>
                s1\<lparr>console := console s1 @ [Error ''Error during graceful shutdown:'' (Some e)],
                   process_status := Exited 1\<rparr>)
      else s)"

subsection \<open>The event loop\<close>

text \<open>
  One event is one callback of the event loop run to its end. A process that has exited
  runs nothing more.
\<close>

datatype signal = SIGTERM | SIGINT

datatype event =
    Request http_request nat outcome
  | MainJob outcome
  | RegionJob region real real
  | TimerFired nat
  | Tick
  | Signal signal
  | DrainSettled nat queue_name outcome

definition step :: "server \<Rightarrow> event \<Rightarrow> server" where
  "step s e =
     (if process_status s = Running then
        (case e of
           Request req now added \<Rightarrow> snd (app req now added s)
         | MainJob added \<Rightarrow> mainQueue_process added s
         | RegionJob r rnd1 rnd2 \<Rightarrow> region_process r rnd1 rnd2 s
         | TimerFired i \<Rightarrow> fire i s
         | Tick \<Rightarrow> analysis s
         | Signal sig \<Rightarrow> gracefulShutdown s
         | DrainSettled g q drained \<Rightarrow> waitForQueueDrain g q drained s)
      else s)"

definition run :: "server \<Rightarrow> event list \<Rightarrow> server" where
  "run s es = foldl step s es"

subsection \<open>One regional lane\<close>

text \<open>
  \<open>called r s\<close> reads the history variable: the jobs of region \<open>r\<close> for which the
  backend has been called, in the order of the calls. \<open>lane r s\<close> pairs it with the jobs
  waiting in the queue of \<open>r\<close>.
\<close>

definition called :: "region \<Rightarrow> server \<Rightarrow> region_job list" where
  "called r s = map (\<lambda>c. fst (snd c)) (filter (\<lambda>c. fst c = queue_of r) (backend_calls s))"

definition lane :: "region \<Rightarrow> server \<Rightarrow> region_job list \<times> region_job list" where
  "lane r s = (called r s, regional r s)"

text \<open>
  Modelled from the spec: the order the spec's Job Queue promises, written down on its
  own as a reference to compare the server with. A lane is the list of jobs served so
  far and the list of jobs waiting. An enqueue puts the job behind the waiting ones; a
  dequeue serves the oldest waiting job, and does nothing on an empty queue.
\<close>

datatype lane_op = Enq region_job | Deq | Nop

fun fifo_step :: "region_job list \<times> region_job list \<Rightarrow> lane_op \<Rightarrow> region_job list \<times> region_job list" where
  "fifo_step (served, waiting) (Enq job) = (served, waiting @ [job])"
| "fifo_step (served, []) Deq = (served, [])"
| "fifo_step (served, job # waiting) Deq = (served @ [job], waiting)"
| "fifo_step (served, waiting) Nop = (served, waiting)"

definition fifo :: "region_job list \<times> region_job list \<Rightarrow> lane_op list \<Rightarrow> region_job list \<times> region_job list" where
  "fifo l ops = foldl fifo_step l ops"

text \<open>
  What an event of the event loop asks of the lane of region \<open>r\<close> in state \<open>s\<close>: the
  dispatcher whose \<^verbatim>\<open>add\<close> resolves enqueues the stripped job when the oldest job of the
  main queue is for \<open>r\<close>; a run of the worker of \<open>r\<close> on a queue that is not empty
  dequeues; every other event, and every event of a process that has ended, asks
  nothing. \<open>lane_ops\<close> collects the requests along a run, \<open>enqueued\<close> the jobs they
  enqueue, in order. \<open>unit_event\<close> says that the draw picking the variant lies in the
  unit interval, as every value of \<^verbatim>\<open>Math.random()\<close> does.
\<close>

definition lane_op_of :: "region \<Rightarrow> server \<Rightarrow> event \<Rightarrow> lane_op" where
  "lane_op_of r s e =
     (if process_status s = Running then
        (case e of
           MainJob added \<Rightarrow>
             (case added of
                Resolved \<Rightarrow>
                  (case mainQueue s of
                     [] \<Rightarrow> Nop
                   | job # rest \<Rightarrow>
                       if location job = Some (tag r)
                       then Enq \<lparr>method_name = method_name job, url = url job,
                                 requestId = requestId job\<rparr>
                       else Nop)
              | Rejected x \<Rightarrow> Nop)
         | RegionJob r' rnd1 rnd2 \<Rightarrow> if r' = r \<and> regional r s \<noteq> [] then Deq else Nop
         | _ \<Rightarrow> Nop)
      else Nop)"

fun lane_ops :: "region \<Rightarrow> server \<Rightarrow> event list \<Rightarrow> lane_op list" where
  "lane_ops r s [] = []"
| "lane_ops r s (e # es) = lane_op_of r s e # lane_ops r (step s e) es"

fun enqueued :: "lane_op list \<Rightarrow> region_job list" where
  "enqueued [] = []"
| "enqueued (Enq job # ops) = job # enqueued ops"
| "enqueued (Deq # ops) = enqueued ops"
| "enqueued (Nop # ops) = enqueued ops"

fun unit_event :: "event \<Rightarrow> bool" where
  "unit_event (RegionJob r rnd1 rnd2) = (0 \<le> rnd1 \<and> rnd1 < 1)"
| "unit_event e = True"

subsection \<open>Drain settlements\<close>

text \<open>
  The four queues in the order \<^verbatim>\<open>gracefulShutdown\<close> lists them, and the events in which
  the drains of the queues \<open>qs\<close> resolve one after the other, for the \<open>g\<close>-th call.
\<close>

definition all_queues :: "queue_name list" where
  "all_queues = [MainQueue, UsaQueue, EuropeQueue, IndiaQueue]"

definition drains :: "nat \<Rightarrow> queue_name list \<Rightarrow> event list" where
  "drains g qs = map (\<lambda>q. DrainSettled g q Resolved) qs"

definition all_drained :: string where
  "all_drained = ''All queues drained. Shutting down...''"

subsection \<open>Sample inputs\<close>

definition usa_job :: main_job where
  "usa_job = \<lparr>method_name = Some ''GET'', url = Some ''/api/v1/resource'', requestId = 17,
     location = Some ''USA''\<rparr>"

definition mars_job :: main_job where
  "mars_job = \<lparr>method_name = Some ''GET'', url = Some ''/api/v1/resource'', requestId = 18,
     location = Some ''Mars''\<rparr>"

definition job_a :: region_job where
  "job_a = \<lparr>method_name = Some ''GET'', url = Some ''/a'', requestId = 21\<rparr>"

definition job_b :: region_job where
  "job_b = \<lparr>method_name = Some ''GET'', url = Some ''/b'', requestId = 22\<rparr>"

definition post_21 :: region_job where
  "post_21 = \<lparr>method_name = Some ''POST'', url = Some ''/'', requestId = 21\<rparr>"

definition post_22 :: region_job where
  "post_22 = \<lparr>method_name = Some ''POST'', url = Some ''/'', requestId = 22\<rparr>"

definition store_down :: js_error where
  "store_down = Rejection ''backing store unavailable''"

definition usa_request :: http_request where
  "usa_request = \<lparr>req_method = Some ''POST'', req_url = Some ''/'', headers_location = Some ''USA''\<rparr>"

definition india_request :: http_request where
  "india_request =
     \<lparr>req_method = Some ''GET'', req_url = Some ''/orders'', headers_location = Some ''India''\<rparr>"

definition bare_request :: http_request where
  "bare_request = \<lparr>req_method = Some ''POST'', req_url = Some ''/'', headers_location = None\<rparr>"

definition usa_feed :: "event list" where
  "usa_feed = [Request usa_request 21 Resolved, MainJob Resolved, RegionJob USA 0 0,
     Request usa_request 22 Resolved, MainJob Resolved, RegionJob USA (1/2) 0]"

definition accepted :: http_response where
  "accepted = \<lparr>res_status = 202, res_json = [(''message'', ''Request queued for processing'')]\<rparr>"

definition invalid :: http_response where
  "invalid = \<lparr>res_status = 400, res_json = [(''error'', ''Invalid request'')]\<rparr>"

section \<open>Auxiliary facts\<close>

lemma run_snoc: "run s (es @ [e]) = step (run s es) e"
  by (simp add: run_def)

lemma step_stopped: "process_status s \<noteq> Running \<Longrightarrow> step s e = s"
  by (simp add: step_def)

lemma pick_api_unit:
  assumes "0 \<le> rnd" and "rnd < 1"
  shows "pick_api rnd = Inr ApiV1 \<or> pick_api rnd = Inr ApiV2"
proof -
  from assms have "0 \<le> \<lfloor>rnd * 2\<rfloor>" and "\<lfloor>rnd * 2\<rfloor> < 2"
    by (simp_all add: floor_less_iff)
  then have "\<lfloor>rnd * 2\<rfloor> = 0 \<or> \<lfloor>rnd * 2\<rfloor> = 1" by linarith
  then show ?thesis
    using assms by (auto simp add: pick_api_def mockRESTAPIs_def)
qed

lemma worker_called:
  assumes "0 \<le> rnd1" and "rnd1 < 1"
  shows "\<exists>a. worker q job rnd1 rnd2 s =
     s\<lparr>timers := timers s @ [handleRequest a rnd2 (method_name job, url job) [''json'']],
       backend_calls := backend_calls s @ [(q, job, a)]\<rparr>"
proof -
  from pick_api_unit [OF assms] obtain a where "pick_api rnd1 = Inr a" by blast
  then have "worker q job rnd1 rnd2 s =
     s\<lparr>timers := timers s @ [handleRequest a rnd2 (method_name job, url job) [''json'']],
       backend_calls := backend_calls s @ [(q, job, a)]\<rparr>"
    by (simp add: worker_def)
  then show ?thesis by (rule exI [where x = a])
qed

lemma stub_response_raises:
  "callback (handleRequest a rnd req [''json'']) = Inl (TypeError ''res.status is not a function'')"
  by (cases a) (simp_all add: callback_def)

subsection \<open>Every step treats a lane as the reference does\<close>

lemma lane_app: "lane r (snd (app req now added s)) = lane r s"
  by (cases r) (simp_all add: lane_def called_def app_def manageQueues_def Let_def split: option.splits)

lemma lane_fire: "lane r (fire i s) = lane r s"
  by (cases r) (simp_all add: lane_def called_def fire_def Let_def split: sum.splits)

lemma lane_analysis: "lane r (analysis s) = lane r s"
  by (cases r) (simp_all add: lane_def called_def analysis_def)

lemma lane_shutdown: "lane r (gracefulShutdown s) = lane r s"
  by (cases r) (simp_all add: lane_def called_def gracefulShutdown_def)

lemma lane_drain: "lane r (waitForQueueDrain g q drained s) = lane r s"
  by (cases r) (simp_all add: lane_def called_def waitForQueueDrain_def Let_def split: outcome.splits)

lemma lane_dispatch:
  "lane r (mainQueue_process added s) =
     fifo_step (lane r s) (lane_op_of r (s\<lparr>process_status := Running\<rparr>) (MainJob added))"
proof (cases "mainQueue s")
  case Nil
  then show ?thesis
    by (cases added) (simp_all add: lane_def mainQueue_process_def lane_op_of_def)
next
  case (Cons job rest)
  then show ?thesis
    by (cases r; cases added)
      (simp_all add: lane_def called_def mainQueue_process_def lane_op_of_def queue_done_def
        queue_add_def Let_def)
qed

lemma lane_worker:
  assumes "0 \<le> rnd1" and "rnd1 < 1"
  shows "lane r (region_process r' rnd1 rnd2 s) =
     fifo_step (lane r s) (lane_op_of r (s\<lparr>process_status := Running\<rparr>) (RegionJob r' rnd1 rnd2))"
proof (cases "regional r' s")
  case Nil
  then show ?thesis
    by (cases r; cases r')
      (simp_all add: lane_def lane_op_of_def usaQueue_process_def europeQueue_process_def
        indiaQueue_process_def)
next
  case (Cons job rest)
  obtain a where w: "worker (queue_of r') job rnd1 rnd2 s =
       s\<lparr>timers := timers s @ [handleRequest a rnd2 (method_name job, url job) [''json'']],
         backend_calls := backend_calls s @ [(queue_of r', job, a)]\<rparr>"
    using worker_called [OF assms] by blast
  with Cons show ?thesis
    by (cases r; cases r')
      (simp_all add: lane_def called_def lane_op_of_def usaQueue_process_def
        europeQueue_process_def indiaQueue_process_def queue_done_def)
qed

lemma lane_step:
  assumes "unit_event e"
  shows "lane r (step s e) = fifo_step (lane r s) (lane_op_of r s e)"
proof (cases "process_status s = Running")
  case False
  then show ?thesis by (simp add: step_def lane_op_of_def lane_def)
next
  case True
  then have same: "s\<lparr>process_status := Running\<rparr> = s" by simp
  show ?thesis
  proof (cases e)
    case (MainJob added)
    then show ?thesis using True lane_dispatch [of r added s] by (simp add: step_def same)
  next
    case (RegionJob r' rnd1 rnd2)
    with assms have "0 \<le> rnd1" "rnd1 < 1" by simp_all
    from lane_worker [OF this, of r r' rnd2 s] RegionJob True show ?thesis
      by (simp add: step_def same)
  next
    case (Request req now added)
    then show ?thesis using True by (simp add: step_def lane_app lane_op_of_def) (simp add: lane_def)
  next
    case (TimerFired i)
    then show ?thesis using True by (simp add: step_def lane_fire lane_op_of_def) (simp add: lane_def)
  next
    case Tick
    then show ?thesis using True by (simp add: step_def lane_analysis lane_op_of_def) (simp add: lane_def)
  next
    case (Signal sig)
    then show ?thesis using True by (simp add: step_def lane_shutdown lane_op_of_def) (simp add: lane_def)
  next
    case (DrainSettled g q drained)
    then show ?thesis using True by (simp add: step_def lane_drain lane_op_of_def) (simp add: lane_def)
  qed
qed

lemma run_Cons: "run s (e # es) = run (step s e) es"
  by (simp add: run_def)

lemma lane_run_fifo:
  assumes "\<forall>e \<in> set es. unit_event e"
  shows "lane r (run s es) = fifo (lane r s) (lane_ops r s es)"
  using assms
proof (induction es arbitrary: s)
  case Nil
  then show ?case by (simp add: run_def fifo_def)
next
  case (Cons e es)
  then have u: "unit_event e" and rest: "\<forall>x \<in> set es. unit_event x" by simp_all
  have "lane r (run s (e # es)) = fifo (lane r (step s e)) (lane_ops r (step s e) es)"
    using Cons.IH [OF rest] by (simp add: run_Cons)
  also have "\<dots> = fifo (lane r s) (lane_ops r s (e # es))"
    by (simp add: fifo_def lane_step [OF u])
  finally show ?case .
qed

lemma fifo_order:
  "fst (fifo (c, q) ops) @ snd (fifo (c, q) ops) = c @ q @ enqueued ops"
proof (induction ops arbitrary: c q)
  case Nil
  then show ?case by (simp add: fifo_def)
next
  case (Cons op ops)
  show ?case
  proof (cases op)
    case (Enq job)
    with Cons [of c "q @ [job]"] show ?thesis by (simp add: fifo_def)
  next
    case Deq
    show ?thesis
    proof (cases q)
      case Nil
      with Deq Cons [of c "[]"] show ?thesis by (simp add: fifo_def)
    next
      case (Cons job rest)
      with Deq Cons.IH [of "c @ [job]" rest] show ?thesis by (simp add: fifo_def)
    qed
  next
    case Nop
    with Cons [of c q] show ?thesis by (simp add: fifo_def)
  qed
qed

subsection \<open>Pending drains\<close>

lemma in_all_queues: "q \<in> set all_queues"
  by (cases q) (simp_all add: all_queues_def)

lemma removeAll_pending:
  "removeAll q (filter (\<lambda>x. x \<notin> set qs) xs) = filter (\<lambda>x. x \<notin> set (qs @ [q])) xs"
  by (induction xs) auto

lemma pending_empty: "(filter (\<lambda>x. x \<notin> set qs) all_queues = []) = (set all_queues \<subseteq> set qs)"
  by (auto simp add: filter_empty_conv)

lemma drain_resolved_step:
  assumes run: "process_status s = Running"
    and g: "g < length (shutdowns s)"
    and p: "shutdowns s ! g = filter (\<lambda>x. x \<notin> set qs) all_queues"
    and n: "\<not> set all_queues \<subseteq> set qs"
  shows "if set all_queues \<subseteq> set (qs @ [q])
         then process_status (step s (DrainSettled g q Resolved)) = Exited 0
            \<and> last (console (step s (DrainSettled g q Resolved))) = Log all_drained
         else process_status (step s (DrainSettled g q Resolved)) = Running
            \<and> g < length (shutdowns (step s (DrainSettled g q Resolved)))
            \<and> shutdowns (step s (DrainSettled g q Resolved)) ! g
                = filter (\<lambda>x. x \<notin> set (qs @ [q])) all_queues"
proof (cases "q \<in> set qs")
  case True
  then have same: "set (qs @ [q]) = set qs" by auto
  from True p have "q \<notin> set (shutdowns s ! g)" by simp
  then have "step s (DrainSettled g q Resolved) = s"
    using run by (simp add: step_def waitForQueueDrain_def)
  then show ?thesis
    using run g p n same by simp
next
  case False
  with p have mem: "q \<in> set (shutdowns s ! g)" by (simp add: in_all_queues)
  have rest: "removeAll q (shutdowns s ! g) = filter (\<lambda>x. x \<notin> set (qs @ [q])) all_queues"
    unfolding p by (rule removeAll_pending)
  show ?thesis
  proof (cases "set all_queues \<subseteq> set (qs @ [q])")
    case True
    then have "removeAll q (shutdowns s ! g) = []"
      unfolding rest by (simp only: pending_empty)
    then show ?thesis
      using True run g mem
      by (simp add: step_def waitForQueueDrain_def Let_def all_drained_def)
  next
    case no: False
    then have "removeAll q (shutdowns s ! g) \<noteq> []"
      unfolding rest by (simp only: pending_empty) simp
    then show ?thesis
      using no run g mem rest
      by (simp add: step_def waitForQueueDrain_def Let_def)
  qed
qed

lemma drains_invariant:
  assumes run: "process_status s = Running"
    and g: "g < length (shutdowns s)"
    and p: "shutdowns s ! g = all_queues"
  shows "if set all_queues \<subseteq> set qs
         then process_status (run s (drains g qs)) = Exited 0
            \<and> last (console (run s (drains g qs))) = Log all_drained
         else process_status (run s (drains g qs)) = Running
            \<and> g < length (shutdowns (run s (drains g qs)))
            \<and> shutdowns (run s (drains g qs)) ! g = filter (\<lambda>x. x \<notin> set qs) all_queues"
proof (induction qs rule: rev_induct)
  case Nil
  have "\<not> set all_queues \<subseteq> set []" by (simp add: all_queues_def)
  then show ?case using run g p by (simp add: drains_def run_def)
next
  case (snoc q qs)
  have last_step:
    "run s (drains g (qs @ [q])) = step (run s (drains g qs)) (DrainSettled g q Resolved)"
    by (simp add: drains_def run_snoc)
  show ?case
  proof (cases "set all_queues \<subseteq> set qs")
    case True
    with snoc have ex: "process_status (run s (drains g qs)) = Exited 0"
      and line: "last (console (run s (drains g qs))) = Log all_drained" by simp_all
    from ex have "step (run s (drains g qs)) (DrainSettled g q Resolved) = run s (drains g qs)"
      by (simp add: step_stopped)
    moreover from True have "set all_queues \<subseteq> set (qs @ [q])" by auto
    ultimately show ?thesis using ex line last_step by simp
  next
    case False
    with snoc have r: "process_status (run s (drains g qs)) = Running"
      and l: "g < length (shutdowns (run s (drains g qs)))"
      and f: "shutdowns (run s (drains g qs)) ! g = filter (\<lambda>x. x \<notin> set qs) all_queues"
      by simp_all
    show ?thesis
      unfolding last_step by (rule drain_resolved_step [OF r l f False])
  qed
qed

lemma signal_step:
  assumes "process_status s = Running"
  shows "process_status (step s (Signal sig)) = Running"
    and "shutdowns (step s (Signal sig)) = shutdowns s @ [all_queues]"
  using assms by (simp_all add: step_def gracefulShutdown_def all_queues_def)

section \<open>The dispatcher\<close>

text \<open>
  C1 (as amended). A job at the head of the main queue whose location is the tag of
  region \<open>r\<close> makes the dispatcher issue one \<^verbatim>\<open>add\<close>, on the queue of \<open>r\<close>, with the
  payload \<^verbatim>\<open>{ method, url, requestId }\<close>. When that \<^verbatim>\<open>add\<close> resolves, the queue of \<open>r\<close>
  gains exactly that payload at its tail, the other two regional queues are unchanged,
  exactly one trace entry naming the queue of \<open>r\<close> is appended and nothing is written to
  the console. When it rejects, no regional queue changes, no trace entry is appended and
  the error is logged once with the job's \<^verbatim>\<open>requestId\<close>. Either way the main-queue job
  is marked done.
\<close>

theorem dispatcher_routes:
  assumes "mainQueue s = job # rest" and "location job = Some (tag r)"
  shows "regional r (mainQueue_process Resolved s) =
           regional r s @ [\<lparr>method_name = method_name job, url = url job, requestId = requestId job\<rparr>]
       \<and> (\<forall>r'. r' \<noteq> r \<longrightarrow> regional r' (mainQueue_process Resolved s) = regional r' s)
       \<and> queueLogs (mainQueue_process Resolved s) =
           queueLogs s @ [\<lparr>queue = name_of (queue_of r), request = job\<rparr>]
       \<and> console (mainQueue_process Resolved s) = console s
       \<and> mainQueue (mainQueue_process Resolved s) = rest
       \<and> (\<forall>r'. regional r' (mainQueue_process (Rejected e) s) = regional r' s)
       \<and> queueLogs (mainQueue_process (Rejected e) s) = queueLogs s
       \<and> console (mainQueue_process (Rejected e) s) =
           console s @ [Error (''Error processing job '' @ show_nat (requestId job) @ '':'') (Some e)]
       \<and> mainQueue (mainQueue_process (Rejected e) s) = rest"
proof -
  have res: "regional r (mainQueue_process Resolved s) =
           regional r s @ [\<lparr>method_name = method_name job, url = url job, requestId = requestId job\<rparr>]"
    using assms by (cases r) (simp_all add: mainQueue_process_def queue_done_def queue_add_def)
  have others: "regional r' (mainQueue_process Resolved s) = regional r' s" if "r' \<noteq> r" for r'
    using assms that
    by (cases r; cases r') (simp_all add: mainQueue_process_def queue_done_def queue_add_def)
  have logs: "queueLogs (mainQueue_process Resolved s) =
           queueLogs s @ [\<lparr>queue = name_of (queue_of r), request = job\<rparr>]"
    using assms by (cases r) (simp_all add: mainQueue_process_def queue_done_def queue_add_def)
  have cons: "console (mainQueue_process Resolved s) = console s"
    using assms by (cases r) (simp_all add: mainQueue_process_def queue_done_def queue_add_def)
  have mq: "mainQueue (mainQueue_process added s) = rest" for added
    using assms
    by (cases r; cases added) (simp_all add: mainQueue_process_def queue_done_def queue_add_def)
  have rej: "regional r' (mainQueue_process (Rejected e) s) = regional r' s" for r'
    using assms by (cases r; cases r') (simp_all add: mainQueue_process_def queue_done_def)
  have rlogs: "queueLogs (mainQueue_process (Rejected e) s) = queueLogs s"
    using assms by (cases r) (simp_all add: mainQueue_process_def queue_done_def)
  have rcons: "console (mainQueue_process (Rejected e) s) =
           console s @ [Error (''Error processing job '' @ show_nat (requestId job) @ '':'') (Some e)]"
    using assms by (cases r) (simp_all add: mainQueue_process_def queue_done_def)
  from res others logs cons mq rej rlogs rcons show ?thesis by blast
qed

text \<open>The theorem at a USA job alone in the main queue, for both outcomes of the \<^verbatim>\<open>add\<close>.\<close>

theorem dispatcher_routes_witness:
  "regional USA (mainQueue_process Resolved (init\<lparr>mainQueue := [usa_job]\<rparr>)) =
      [\<lparr>method_name = Some ''GET'', url = Some ''/api/v1/resource'', requestId = 17\<rparr>]
   \<and> regional Europe (mainQueue_process Resolved (init\<lparr>mainQueue := [usa_job]\<rparr>)) = []
   \<and> regional India (mainQueue_process Resolved (init\<lparr>mainQueue := [usa_job]\<rparr>)) = []
   \<and> queueLogs (mainQueue_process Resolved (init\<lparr>mainQueue := [usa_job]\<rparr>)) =
        [\<lparr>queue = ''usaQueue'', request = usa_job\<rparr>]
   \<and> queueLogs (mainQueue_process (Rejected store_down) (init\<lparr>mainQueue := [usa_job]\<rparr>)) = []
   \<and> console (mainQueue_process (Rejected store_down) (init\<lparr>mainQueue := [usa_job]\<rparr>)) =
        [Error ''Error processing job 17:'' (Some store_down)]"
proof -
  have h1: "mainQueue (init\<lparr>mainQueue := [usa_job]\<rparr>) = usa_job # []" by simp
  have h2: "location usa_job = Some (tag USA)" by (simp add: usa_job_def)
  have n: "show_nat 17 = ''17''" by code_simp
  have r: "requestId usa_job = 17" "method_name usa_job = Some ''GET''"
    "url usa_job = Some ''/api/v1/resource''"
    by (simp_all add: usa_job_def)
  note th = dispatcher_routes [OF h1 h2, of store_down]
  from th have o: "\<forall>r'. r' \<noteq> USA \<longrightarrow>
      regional r' (mainQueue_process Resolved (init\<lparr>mainQueue := [usa_job]\<rparr>)) =
      regional r' (init\<lparr>mainQueue := [usa_job]\<rparr>)"
    by blast
  have e: "regional Europe (mainQueue_process Resolved (init\<lparr>mainQueue := [usa_job]\<rparr>)) = []"
    using o [rule_format, of Europe] by (simp add: init_def)
  have i: "regional India (mainQueue_process Resolved (init\<lparr>mainQueue := [usa_job]\<rparr>)) = []"
    using o [rule_format, of India] by (simp add: init_def)
  show ?thesis
    using th n r e i by (simp add: init_def)
qed

text \<open>
  C1 as stated fails: a USA job is taken from the main queue, the \<^verbatim>\<open>add\<close> on the USA
  queue rejects, and the dispatcher appends no trace entry and the USA queue gains
  nothing, while the job is gone from the main queue.
\<close>

theorem dispatcher_counterexample:
  "location usa_job = Some ''USA''
   \<and> mainQueue (init\<lparr>mainQueue := [usa_job]\<rparr>) = [usa_job]
   \<and> queueLogs (mainQueue_process (Rejected store_down) (init\<lparr>mainQueue := [usa_job]\<rparr>)) = []
   \<and> usaQueue (mainQueue_process (Rejected store_down) (init\<lparr>mainQueue := [usa_job]\<rparr>)) = []
   \<and> mainQueue (mainQueue_process (Rejected store_down) (init\<lparr>mainQueue := [usa_job]\<rparr>)) = []"
  by (simp add: mainQueue_process_def usa_job_def init_def queue_done_def)

text \<open>
  C2. A job at the head of the main queue whose location is none of USA, Europe and
  India (an absent location included) leaves every regional queue and the trace log as
  they were: the only effects of the dispatcher are one console error
  \<^verbatim>\<open>Invalid location: ...\<close> and the removal of the job from the main queue, whatever
  the backing store would have answered. The job is in no queue afterwards, so nothing
  retries it.
\<close>

theorem unroutable_dropped:
  assumes "mainQueue s = job # rest"
    and "location job \<noteq> Some ''USA''"
    and "location job \<noteq> Some ''Europe''"
    and "location job \<noteq> Some ''India''"
  shows "mainQueue_process added s =
     s\<lparr>console := console s @ [Error (''Invalid location: '' @ js_str (location job)) None],
       mainQueue := rest\<rparr>"
  using assms by (simp add: mainQueue_process_def queue_done_def)

text \<open>The theorem at a job for Mars, with a job waiting in the USA queue.\<close>

theorem unroutable_dropped_witness:
  "mainQueue_process Resolved (init\<lparr>mainQueue := [mars_job], usaQueue := [job_a]\<rparr>) =
     init\<lparr>usaQueue := [job_a], console := [Error ''Invalid location: Mars'' None]\<rparr>"
proof -
  have h: "mainQueue (init\<lparr>mainQueue := [mars_job], usaQueue := [job_a]\<rparr>) = mars_job # []"
    by simp
  have l: "location mars_job \<noteq> Some ''USA''" "location mars_job \<noteq> Some ''Europe''"
    "location mars_job \<noteq> Some ''India''" "js_str (location mars_job) = ''Mars''"
    by (simp_all add: mars_job_def js_str_def)
  show ?thesis
    using unroutable_dropped [OF h l(1) l(2) l(3), of Resolved] l(4)
    by (simp add: init_def)
qed

section \<open>Intake\<close>

text \<open>
  C3. A field counts as missing when it is \<open>undefined\<close> or empty, which is what the
  validator tests. If the method, the url or the location header of a request is
  missing, the answer is 400 with \<^verbatim>\<open>{"error": "Invalid request"}\<close> and the state of the
  server, its queues included, is unchanged. Otherwise the answer is 202 with
  \<^verbatim>\<open>{"message": "Request queued for processing"}\<close>, and once the \<^verbatim>\<open>add\<close> has resolved
  the main queue is one job longer. The status is 400 or 202 in every case.
\<close>

theorem request_answer:
  "(if falsy (req_method req) \<or> falsy (req_url req) \<or> falsy (headers_location req)
    then app req now added s = (invalid, s)
    else fst (app req now added s) = accepted
       \<and> (added = Resolved \<longrightarrow>
            queue_size (mainQueue (snd (app req now added s))) = queue_size (mainQueue s) + 1))
   \<and> (res_status (fst (app req now added s)) = 400 \<or> res_status (fst (app req now added s)) = 202)"
  by (simp add: app_def validateRequest_def manageQueues_def Let_def invalid_def accepted_def
      queue_add_def queue_size_def)

text \<open>The theorem at a request without a location header and at a well-formed one.\<close>

theorem request_answer_witness:
  "app bare_request 17 Resolved init = (invalid, init)
   \<and> fst (app usa_request 17 Resolved init) = accepted
   \<and> queue_size (mainQueue (snd (app usa_request 17 Resolved init))) = 1"
proof -
  have f: "falsy (headers_location bare_request)" "\<not> falsy (req_method usa_request)"
    "\<not> falsy (req_url usa_request)" "\<not> falsy (headers_location usa_request)"
    by (simp_all add: falsy_def bare_request_def usa_request_def)
  have q: "queue_size (mainQueue init) = 0" by (simp add: init_def queue_size_def)
  show ?thesis
    using request_answer [of bare_request 17 Resolved init]
      request_answer [of usa_request 17 Resolved init] f q
    by simp
qed

section \<open>Failures inside job handlers\<close>

text \<open>
  C4 (the code departs from it). The response object every regional worker hands to the
  backend has no \<^verbatim>\<open>status\<close> method, so the delayed callback of either variant raises a
  \<open>TypeError\<close>, whatever delay was drawn. The callback runs from the timer, outside the
  handler's \<^verbatim>\<open>try\<close>, where nothing catches it. At the failing input: the USA worker
  takes a job, its timer fires, and the process has ended with that error; nothing was
  logged, and the job waiting in the Europe queue is never taken.
\<close>

theorem backend_response_crashes:
  "callback (handleRequest a rnd req [''json'']) = Inl (TypeError ''res.status is not a function'')
   \<and> process_status (run (init\<lparr>usaQueue := [job_a], europeQueue := [job_b]\<rparr>)
        [RegionJob USA 0 0, TimerFired 0, RegionJob Europe 0 0])
       = Crashed (TypeError ''res.status is not a function'')
   \<and> europeQueue (run (init\<lparr>usaQueue := [job_a], europeQueue := [job_b]\<rparr>)
        [RegionJob USA 0 0, TimerFired 0, RegionJob Europe 0 0]) = [job_b]
   \<and> console (run (init\<lparr>usaQueue := [job_a], europeQueue := [job_b]\<rparr>)
        [RegionJob USA 0 0, TimerFired 0, RegionJob Europe 0 0]) = []"
proof -
  have "callback (handleRequest a rnd req [''json''])
      = Inl (TypeError ''res.status is not a function'')"
    by (rule stub_response_raises)
  moreover have "process_status (run (init\<lparr>usaQueue := [job_a], europeQueue := [job_b]\<rparr>)
        [RegionJob USA 0 0, TimerFired 0, RegionJob Europe 0 0])
       = Crashed (TypeError ''res.status is not a function'')"
    by (simp add: run_def step_def init_def usaQueue_process_def worker_def pick_api_def
        mockRESTAPIs_def fire_def callback_def queue_done_def)
  moreover have "europeQueue (run (init\<lparr>usaQueue := [job_a], europeQueue := [job_b]\<rparr>)
        [RegionJob USA 0 0, TimerFired 0, RegionJob Europe 0 0]) = [job_b]"
    by (simp add: run_def step_def init_def usaQueue_process_def worker_def pick_api_def
        mockRESTAPIs_def fire_def callback_def queue_done_def)
  moreover have "console (run (init\<lparr>usaQueue := [job_a], europeQueue := [job_b]\<rparr>)
        [RegionJob USA 0 0, TimerFired 0, RegionJob Europe 0 0]) = []"
    by (simp add: run_def step_def init_def usaQueue_process_def worker_def pick_api_def
        mockRESTAPIs_def fire_def callback_def queue_done_def)
  ultimately show ?thesis by simp
qed

section \<open>Shutdown\<close>

text \<open>
  C5 (as amended). From a running process, either termination signal makes
  \<^verbatim>\<open>gracefulShutdown\<close> call \<^verbatim>\<open>drain()\<close> on the four queues. While drains resolve, the
  process keeps running until all four have resolved, and at that moment it exits with
  code 0. When a drain that is still pending rejects, the process exits with code 1 at
  once, the error being the last thing logged; it does not wait for the other drains.
  The events considered after the signal are the settlements of these drains.
\<close>

theorem shutdown_exit:
  assumes "process_status s = Running"
  shows "shutdowns (step s (Signal sig)) = shutdowns s @ [all_queues]
     \<and> process_status (run (step s (Signal sig)) (drains (length (shutdowns s)) qs))
         = (if set all_queues \<subseteq> set qs then Exited 0 else Running)
     \<and> (q \<notin> set qs \<longrightarrow>
          process_status (run (step s (Signal sig))
              (drains (length (shutdowns s)) qs @ [DrainSettled (length (shutdowns s)) q (Rejected e)]))
            = Exited 1
        \<and> last (console (run (step s (Signal sig))
              (drains (length (shutdowns s)) qs @ [DrainSettled (length (shutdowns s)) q (Rejected e)])))
            = Error ''Error during graceful shutdown:'' (Some e))"
proof -
  let ?s = "step s (Signal sig)"
  let ?g = "length (shutdowns s)"
  have r: "process_status ?s = Running" and sh: "shutdowns ?s = shutdowns s @ [all_queues]"
    using signal_step [OF assms] by simp_all
  have g: "?g < length (shutdowns ?s)" and p: "shutdowns ?s ! ?g = all_queues"
    by (simp_all add: sh)
  note inv = drains_invariant [OF r g p]
  have a: "process_status (run ?s (drains ?g qs))
      = (if set all_queues \<subseteq> set qs then Exited 0 else Running)"
    using inv [of qs] by (simp split: if_splits)
  have b: "process_status (run ?s (drains ?g qs @ [DrainSettled ?g q (Rejected e)])) = Exited 1
        \<and> last (console (run ?s (drains ?g qs @ [DrainSettled ?g q (Rejected e)])))
            = Error ''Error during graceful shutdown:'' (Some e)" if "q \<notin> set qs"
  proof -
    from that in_all_queues [of q] have n: "\<not> set all_queues \<subseteq> set qs" by auto
    with inv [of qs] have r': "process_status (run ?s (drains ?g qs)) = Running"
      and l': "?g < length (shutdowns (run ?s (drains ?g qs)))"
      and f': "shutdowns (run ?s (drains ?g qs)) ! ?g = filter (\<lambda>x. x \<notin> set qs) all_queues"
      by simp_all
    from that f' have "q \<in> set (shutdowns (run ?s (drains ?g qs)) ! ?g)"
      by (simp add: in_all_queues)
    then show ?thesis
      using r' l' by (simp add: run_snoc step_def waitForQueueDrain_def Let_def)
  qed
  from sh a b show ?thesis by blast
qed

text \<open>
  The theorem from the initial state: three drains resolved, all four resolved, and a
  rejection after one drain resolved.
\<close>

theorem shutdown_exit_witness:
  "shutdowns (step init (Signal SIGTERM)) = [all_queues]
   \<and> process_status (run (step init (Signal SIGINT)) (drains 0 [UsaQueue, MainQueue, IndiaQueue]))
       = Running
   \<and> process_status (run (step init (Signal SIGINT))
        (drains 0 [UsaQueue, MainQueue, IndiaQueue, EuropeQueue])) = Exited 0
   \<and> process_status (run (step init (Signal SIGTERM))
        (drains 0 [UsaQueue] @ [DrainSettled 0 MainQueue (Rejected store_down)])) = Exited 1
   \<and> last (console (run (step init (Signal SIGTERM))
        (drains 0 [UsaQueue] @ [DrainSettled 0 MainQueue (Rejected store_down)])))
       = Error ''Error during graceful shutdown:'' (Some store_down)"
proof -
  have r: "process_status init = Running" and l: "length (shutdowns init) = 0"
    by (simp_all add: init_def)
  have s: "shutdowns init = []" by (simp add: init_def)
  show ?thesis
    using shutdown_exit [OF r, of SIGTERM "[UsaQueue]" MainQueue store_down]
      shutdown_exit [OF r, of SIGINT "[UsaQueue, MainQueue, IndiaQueue]"]
      shutdown_exit [OF r, of SIGINT "[UsaQueue, MainQueue, IndiaQueue, EuropeQueue]"]
    by (simp add: l s all_queues_def)
qed

text \<open>
  C5 as stated fails: after SIGTERM the USA drain resolves and the main queue's drain
  rejects; the process has exited with code 1 while the drains of the Europe and India
  queues are still pending.
\<close>

theorem shutdown_counterexample:
  "process_status (run init [Signal SIGTERM, DrainSettled 0 UsaQueue Resolved,
        DrainSettled 0 MainQueue (Rejected store_down)]) = Exited 1
   \<and> shutdowns (run init [Signal SIGTERM, DrainSettled 0 UsaQueue Resolved,
        DrainSettled 0 MainQueue (Rejected store_down)]) = [[EuropeQueue, IndiaQueue]]"
  by (simp add: run_def step_def init_def gracefulShutdown_def waitForQueueDrain_def Let_def)

section \<open>Order within a regional queue\<close>

text \<open>
  C6. Run the server from any state through any events (requests, dispatcher and worker
  runs of every region, timers, analysis ticks, signals, drain settlements), the draws
  of the workers lying in the unit interval. For each region \<open>r\<close> the jobs whose backend
  call has been made and the jobs waiting in its queue are exactly what the reference
  FIFO lane gives for the enqueues and dequeues the events asked for: every worker run on
  a queue that is not empty calls the backend for the oldest waiting job, and every
  arrival goes behind the waiting jobs. Hence the calls made, followed by the waiting
  jobs, are the earlier calls, the jobs that were waiting and the arrivals, in that
  order: a job enqueued before another has its backend call dispatched first, also when
  its own timer is still armed at the later arrival, since the worker never waits for
  it. The last part states the single worker run directly.
\<close>

theorem regional_fifo:
  assumes "\<forall>e \<in> set es. unit_event e"
  shows "(called r (run s es), regional r (run s es))
           = fifo (called r s, regional r s) (lane_ops r s es)
       \<and> called r (run s es) @ regional r (run s es)
           = called r s @ regional r s @ enqueued (lane_ops r s es)
       \<and> (process_status s = Running \<and> regional r s = job # rest \<and> 0 \<le> rnd1 \<and> rnd1 < 1 \<longrightarrow>
            called r (step s (RegionJob r rnd1 rnd2)) = called r s @ [job]
          \<and> regional r (step s (RegionJob r rnd1 rnd2)) = rest)"
proof -
  have a: "(called r (run s es), regional r (run s es))
           = fifo (called r s, regional r s) (lane_ops r s es)"
    using lane_run_fifo [OF assms, of r s] by (simp add: lane_def)
  then have "called r (run s es) = fst (fifo (called r s, regional r s) (lane_ops r s es))"
    and "regional r (run s es) = snd (fifo (called r s, regional r s) (lane_ops r s es))"
    by (simp_all flip: a)
  then have b: "called r (run s es) @ regional r (run s es)
           = called r s @ regional r s @ enqueued (lane_ops r s es)"
    using fifo_order [of "called r s" "regional r s" "lane_ops r s es"] by simp
  have c: "called r (step s (RegionJob r rnd1 rnd2)) = called r s @ [job]
          \<and> regional r (step s (RegionJob r rnd1 rnd2)) = rest"
    if "process_status s = Running" "regional r s = job # rest" "0 \<le> rnd1" "rnd1 < 1"
  proof -
    from that have "unit_event (RegionJob r rnd1 rnd2)" by simp
    from lane_step [OF this, of r s] that show ?thesis
      by (simp add: lane_def lane_op_of_def)
  qed
  from a b c show ?thesis by blast
qed

text \<open>
  The theorem at three runs. USA, fed through the ingress and the dispatcher: the first
  job is called, the second arrives while the first timer is armed and is called after
  it. Europe: two waiting jobs are called in their order. India: one worker run calls
  the older of two waiting jobs and leaves the other.
\<close>

theorem regional_fifo_witness:
  "called USA (run init usa_feed) = [post_21, post_22]
   \<and> regional USA (run init usa_feed) = []
   \<and> length (timers (run init (take 5 usa_feed))) = 1
   \<and> called Europe (run (init\<lparr>europeQueue := [job_a, job_b]\<rparr>)
        [RegionJob Europe 0 0, RegionJob Europe (1/2) 0]) = [job_a, job_b]
   \<and> called India (step (init\<lparr>indiaQueue := [job_a, job_b]\<rparr>) (RegionJob India 0 0)) = [job_a]
   \<and> regional India (step (init\<lparr>indiaQueue := [job_a, job_b]\<rparr>) (RegionJob India 0 0)) = [job_b]"
proof -
  have u: "\<forall>e \<in> set usa_feed. unit_event e" by (simp add: usa_feed_def)
  have usa: "fifo (called USA init, regional USA init) (lane_ops USA init usa_feed)
      = ([post_21, post_22], [])"
    by (simp add: usa_feed_def fifo_def lane_op_of_def step_def app_def validateRequest_def
        manageQueues_def Let_def mainQueue_process_def usaQueue_process_def worker_def
        pick_api_def mockRESTAPIs_def queue_add_def queue_done_def init_def called_def
        usa_request_def falsy_def post_21_def post_22_def)
  have t: "length (timers (run init (take 5 usa_feed))) = 1"
    by (simp add: usa_feed_def run_def step_def app_def validateRequest_def
        manageQueues_def Let_def mainQueue_process_def usaQueue_process_def worker_def
        pick_api_def mockRESTAPIs_def queue_add_def queue_done_def init_def
        usa_request_def falsy_def)
  have v: "\<forall>e \<in> set [RegionJob Europe 0 0, RegionJob Europe (1/2) 0]. unit_event e" by simp
  have eu: "fifo (called Europe (init\<lparr>europeQueue := [job_a, job_b]\<rparr>),
                   regional Europe (init\<lparr>europeQueue := [job_a, job_b]\<rparr>))
              (lane_ops Europe (init\<lparr>europeQueue := [job_a, job_b]\<rparr>)
                 [RegionJob Europe 0 0, RegionJob Europe (1/2) 0])
      = ([job_a, job_b], [])"
    by (simp add: fifo_def lane_op_of_def step_def europeQueue_process_def worker_def
        pick_api_def mockRESTAPIs_def queue_done_def init_def called_def)
  have r: "process_status (init\<lparr>indiaQueue := [job_a, job_b]\<rparr>) = Running"
    and q: "regional India (init\<lparr>indiaQueue := [job_a, job_b]\<rparr>) = job_a # [job_b]"
    and c: "called India (init\<lparr>indiaQueue := [job_a, job_b]\<rparr>) = []"
    by (simp_all add: init_def called_def)
  show ?thesis
    using regional_fifo [OF u, of USA init] usa t
      regional_fifo [OF v, of Europe "init\<lparr>europeQueue := [job_a, job_b]\<rparr>"] eu
      regional_fifo [OF v, of India "init\<lparr>indiaQueue := [job_a, job_b]\<rparr>" job_a "[job_b]" 0 0] r q c
    by simp
qed

section \<open>The periodic analysis\<close>

text \<open>
  C7 (the code departs from it). With the Europe queue empty the analysis prints a size
  line for the main, USA and India queues and none for Europe, then the header of the
  logs and one line per trace entry; with a job in the Europe queue the Europe line is
  there. The queues are not touched.
\<close>

theorem europe_line_skipped:
  "console (analysis (init\<lparr>queueLogs := [\<lparr>queue = ''usaQueue'', request = usa_job\<rparr>]\<rparr>)) =
     [Log ''Queue performance analysis:'',
      Log ''Main queue size: 0'',
      Log ''USA queue size: 0'',
      Log ''India queue size: 0'',
      Log ''Queue logs:'',
      Log ''usaQueue queue: GET /api/v1/resource (USA) [17]'']
   \<and> console (analysis (init\<lparr>europeQueue := [job_a]\<rparr>)) =
     [Log ''Queue performance analysis:'',
      Log ''Main queue size: 0'',
      Log ''USA queue size: 0'',
      Log ''Europe queue size: 1'',
      Log ''India queue size: 0'',
      Log ''Queue logs:'']
   \<and> europeQueue (analysis (init\<lparr>europeQueue := [job_a]\<rparr>)) = [job_a]
   \<and> analysis_period_ms = 10000"
proof -
  have n: "show_nat 0 = ''0''" "show_nat (Suc 0) = ''1''" "show_nat 17 = ''17''" by code_simp+
  show ?thesis
    by (simp add: analysis_def init_def queue_size_def log_line_def usa_job_def js_str_def n
        analysis_period_ms_def)
qed

section \<open>Requests while draining\<close>

text \<open>
  C8 (as amended). A call of \<^verbatim>\<open>gracefulShutdown\<close> changes nothing for the ingress: every
  request gets the answer it would have got before the signal, 400 or 202 and no other
  status, and the main queue after the request is the one it would have been. The answer
  depends on the request alone, not on the state of the server, so this holds at every
  moment of the draining.
\<close>

theorem draining_still_accepts:
  "fst (app req now added (gracefulShutdown s)) = fst (app req now added s)
   \<and> fst (app req now added s') = fst (app req now added s)
   \<and> mainQueue (snd (app req now added (gracefulShutdown s))) = mainQueue (snd (app req now added s))
   \<and> (res_status (fst (app req now added (gracefulShutdown s))) = 400
      \<or> res_status (fst (app req now added (gracefulShutdown s))) = 202)"
  by (simp add: app_def validateRequest_def manageQueues_def Let_def gracefulShutdown_def
      split: option.splits)

text \<open>
  C8 as stated fails: after SIGTERM a well-formed request is answered 202, the process is
  still running and the request's job is in the main queue.
\<close>

theorem draining_counterexample:
  "fst (app usa_request 17 Resolved (gracefulShutdown init)) = accepted
   \<and> mainQueue (snd (app usa_request 17 Resolved (gracefulShutdown init))) =
       [\<lparr>method_name = Some ''POST'', url = Some ''/'', requestId = 17, location = Some ''USA''\<rparr>]
   \<and> process_status (run init [Signal SIGTERM, Request usa_request 17 Resolved]) = Running
   \<and> mainQueue (run init [Signal SIGTERM, Request usa_request 17 Resolved]) =
       [\<lparr>method_name = Some ''POST'', url = Some ''/'', requestId = 17, location = Some ''USA''\<rparr>]"
  by (simp add: run_def step_def app_def validateRequest_def manageQueues_def Let_def
      gracefulShutdown_def init_def usa_request_def falsy_def accepted_def queue_add_def)

section \<open>Request identifiers\<close>

text \<open>
  C9 (the code departs from it). Two different requests handled while the clock reads
  the same millisecond are both accepted, and their jobs carry the same \<^verbatim>\<open>requestId\<close>.
\<close>

theorem request_ids_collide:
  "usa_request \<noteq> india_request
   \<and> fst (app usa_request 17 Resolved init) = accepted
   \<and> fst (app india_request 17 Resolved (snd (app usa_request 17 Resolved init))) = accepted
   \<and> map requestId
        (mainQueue (run init [Request usa_request 17 Resolved, Request india_request 17 Resolved]))
       = [17, 17]"
  by (simp add: run_def step_def app_def validateRequest_def manageQueues_def Let_def
      init_def usa_request_def india_request_def falsy_def accepted_def queue_add_def)

section \<open>Completion before the backend answers\<close>

text \<open>
  C10. When the worker of region \<open>r\<close> runs on the oldest job of its queue, with draws
  from the unit interval, the job has left the queue when the handler returns, so the
  queue is shorter, while the timer that will deliver the backend's answer has just been
  armed, with a delay of at least 200 ms, and has not fired. If that job was the only
  one, the queue reports size 0 with a backend response outstanding.
\<close>

theorem worker_done_before_response:
  assumes "regional r s = job # rest" and "0 \<le> rnd1" and "rnd1 < 1" and "0 \<le> rnd2"
  shows "regional r (region_process r rnd1 rnd2 s) = rest
     \<and> queue_size (regional r (region_process r rnd1 rnd2 s)) < queue_size (regional r s)
     \<and> (\<exists>t. timers (region_process r rnd1 rnd2 s) = timers s @ [t]
            \<and> 200 \<le> delay t \<and> target t = [''json''])
     \<and> process_status (region_process r rnd1 rnd2 s) = process_status s
     \<and> (rest = [] \<longrightarrow> queue_size (regional r (region_process r rnd1 rnd2 s)) = 0
            \<and> timers (region_process r rnd1 rnd2 s) \<noteq> [])"
proof -
  obtain a where w: "worker (queue_of r) job rnd1 rnd2 s =
       s\<lparr>timers := timers s @ [handleRequest a rnd2 (method_name job, url job) [''json'']],
         backend_calls := backend_calls s @ [(queue_of r, job, a)]\<rparr>"
    using worker_called [OF assms(2,3)] by blast
  have d: "200 \<le> delay (handleRequest a rnd2 (method_name job, url job) [''json''])"
    using assms(4) by (cases a) (simp_all add: le_floor_iff)
  have tg: "target (handleRequest a rnd2 (method_name job, url job) [''json'']) = [''json'']"
    by (cases a) simp_all
  have st: "region_process r rnd1 rnd2 s =
      (worker (queue_of r) job rnd1 rnd2 s)\<lparr>usaQueue := (if r = USA then rest else usaQueue s),
         europeQueue := (if r = Europe then rest else europeQueue s),
         indiaQueue := (if r = India then rest else indiaQueue s)\<rparr>"
    using assms(1) w
    by (cases r) (simp_all add: usaQueue_process_def europeQueue_process_def
        indiaQueue_process_def queue_done_def)
  have q: "regional r (region_process r rnd1 rnd2 s) = rest"
    unfolding st w by (cases r) simp_all
  have t: "timers (region_process r rnd1 rnd2 s) = timers s @ [handleRequest a rnd2 (method_name job, url job) [''json'']]"
    unfolding st w by simp
  have p: "process_status (region_process r rnd1 rnd2 s) = process_status s"
    unfolding st w by simp
  from q t p d tg assms(1) show ?thesis
    by (simp add: queue_size_def)
qed

text \<open>The theorem at the USA worker with one job in its queue.\<close>

theorem worker_done_before_response_witness:
  "regional USA (region_process USA 0 0 (init\<lparr>usaQueue := [job_a]\<rparr>)) = []
   \<and> queue_size (regional USA (region_process USA 0 0 (init\<lparr>usaQueue := [job_a]\<rparr>))) = 0
   \<and> timers (region_process USA 0 0 (init\<lparr>usaQueue := [job_a]\<rparr>)) \<noteq> []"
proof -
  have h: "regional USA (init\<lparr>usaQueue := [job_a]\<rparr>) = job_a # []" by simp
  show ?thesis
    using worker_done_before_response [OF h, of 0 0] by (simp add: queue_size_def)
qed

end
